theory Spec2Isabelle
  imports Main "HOL-Library.Word"
begin

section \<open>safe-env: the environment checker of \<^verbatim>\<open>src/index.ts\<close>\<close>

subsection \<open>Strings\<close>

text \<open>
  A JavaScript string is a sequence of UTF-16 code units. The program only concatenates
  strings, tests them for emptiness (truthiness) and compares prefixes, all of which work
  unit by unit. \<open>ascii\<close> writes an ASCII literal as code units.
\<close>

type_synonym jsstring = "16 word list"

definition ascii :: "string \<Rightarrow> jsstring" where
  "ascii s = map of_char s"

definition newline :: jsstring where
  "newline = [0x0A]"

text \<open>
  \<^verbatim>\<open>s.startsWith(p)\<close>: the first \<open>p.length\<close> code units of \<open>s\<close> are those of \<open>p\<close>.
\<close>

definition startsWith :: "jsstring \<Rightarrow> jsstring \<Rightarrow> bool" where
  "startsWith s p = (take (length p) s = p)"

text \<open>
  \<^verbatim>\<open>xs.join(sep)\<close> on an array of strings.
\<close>

fun jsJoin :: "jsstring \<Rightarrow> jsstring list \<Rightarrow> jsstring" where
  "jsJoin sep [] = []"
| "jsJoin sep [x] = x"
| "jsJoin sep (x # y # ys) = x @ sep @ jsJoin sep (y # ys)"

subsection \<open>Values and objects\<close>

text \<open>
  What a property read can yield: \<^verbatim>\<open>undefined\<close>, a string, or an object (a function is
  an object). \<open>truthy\<close> is the test of \<^verbatim>\<open>!x\<close> and \<^verbatim>\<open>x ? a : b\<close>: \<^verbatim>\<open>undefined\<close> and the empty
  string are falsy, every other string and every object is truthy. \<open>toVal\<close> reads a value of
  the type \<^verbatim>\<open>string | undefined\<close>.
\<close>

datatype jsval = Undefined | Str jsstring | Obj

fun truthy :: "jsval \<Rightarrow> bool" where
  "truthy Undefined = False"
| "truthy (Str s) = (s \<noteq> [])"
| "truthy Obj = True"

fun toVal :: "jsstring option \<Rightarrow> jsval" where
  "toVal None = Undefined"
| "toVal (Some s) = Str s"

text \<open>
  An object of type \<^verbatim>\<open>Record<string, string | undefined>\<close>: \<open>props\<close> is the table of its own
  enumerable properties in the order of \<^verbatim>\<open>Object.keys\<close>, each holding a string or
  \<^verbatim>\<open>undefined\<close> (\<open>None\<close>); \<open>inherited\<close> is what a read of any other key yields, through the
  prototype chain. An object has each own key once: \<open>wellFormed\<close>.
\<close>

type_synonym table = "(jsstring \<times> jsstring option) list"

record jsobject =
  props :: table
  inherited :: "jsstring \<Rightarrow> jsval"

definition wellFormed :: "jsobject \<Rightarrow> bool" where
  "wellFormed obj = distinct (map fst (props obj))"

text \<open>\<^verbatim>\<open>Object.keys(obj)\<close>\<close>

definition objKeys :: "jsobject \<Rightarrow> jsstring list" where
  "objKeys obj = map fst (props obj)"

text \<open>
  \<^verbatim>\<open>obj[k]\<close>: the value of the own property \<open>k\<close> when there is one, also when it holds
  \<^verbatim>\<open>undefined\<close>; otherwise what the prototype chain gives.
\<close>

definition objRead :: "jsobject \<Rightarrow> jsstring \<Rightarrow> jsval" where
  "objRead obj k = (case map_of (props obj) k of Some v \<Rightarrow> toVal v | None \<Rightarrow> inherited obj k)"

text \<open>
  The built-in \<^verbatim>\<open>Object.prototype\<close>: eleven methods, and the accessor \<^verbatim>\<open>__proto__\<close> whose
  getter returns the prototype of the object read, an object. Each reads as an object.
\<close>

definition protoKey :: jsstring where
  "protoKey = ascii ''__proto__''"

definition objectPrototypeKeys :: "jsstring list" where
  "objectPrototypeKeys =
     [ascii ''constructor'', ascii ''hasOwnProperty'', ascii ''isPrototypeOf'',
      ascii ''propertyIsEnumerable'', ascii ''toLocaleString'', ascii ''toString'',
      ascii ''valueOf'', ascii ''__defineGetter__'', ascii ''__defineSetter__'',
      ascii ''__lookupGetter__'', ascii ''__lookupSetter__'', protoKey]"

definition objectPrototypeGet :: "jsstring \<Rightarrow> jsval" where
  "objectPrototypeGet k = (if k \<in> set objectPrototypeKeys then Obj else Undefined)"

text \<open>
  An object written as a literal or made by \<^verbatim>\<open>JSON.parse\<close>: its prototype is
  \<^verbatim>\<open>Object.prototype\<close>. \<open>emptyObject\<close> is \<^verbatim>\<open>{}\<close>.
\<close>

definition plainObject :: "table \<Rightarrow> jsobject" where
  "plainObject t = \<lparr>props = t, inherited = objectPrototypeGet\<rparr>"

definition emptyObject :: jsobject where
  "emptyObject = plainObject []"

text \<open>
  \<^verbatim>\<open>obj[k] = v\<close> on an object whose prototype is \<^verbatim>\<open>Object.prototype\<close>, for \<open>v\<close> a string or
  \<^verbatim>\<open>undefined\<close>. An own property is overwritten in place. Otherwise the key
  \<^verbatim>\<open>__proto__\<close> reaches the inherited setter, which ignores a value that is neither an
  object nor \<^verbatim>\<open>null\<close>, so nothing is stored; any other key becomes a new own property
  (the methods of \<^verbatim>\<open>Object.prototype\<close> are writable, so they can be shadowed).
\<close>

fun tableSet :: "table \<Rightarrow> jsstring \<Rightarrow> jsstring option \<Rightarrow> table" where
  "tableSet [] k v = [(k, v)]"
| "tableSet ((k', v') # rest) k v =
     (if k' = k then (k, v) # rest else (k', v') # tableSet rest k v)"

definition objAssign :: "jsobject \<Rightarrow> jsstring \<Rightarrow> jsstring option \<Rightarrow> jsobject" where
  "objAssign obj k v =
     (if k \<in> set (objKeys obj) then obj\<lparr>props := tableSet (props obj) k v\<rparr>
      else if k = protoKey then obj
      else obj\<lparr>props := tableSet (props obj) k v\<rparr>)"

subsection \<open>Options, result, effects\<close>

text \<open>
  Every field of \<^verbatim>\<open>CheckEnvOptions\<close> is optional: \<open>None\<close> is an absent (or
  \<^verbatim>\<open>undefined\<close>) field. The default argument \<^verbatim>\<open>options = {}\<close> is \<open>noOptions\<close>.
\<close>

record CheckEnvOptions =
  prefix :: "jsstring option"
  source :: "jsobject option"
  exitOnError :: "bool option"

definition noOptions :: CheckEnvOptions where
  "noOptions = \<lparr>prefix = None, source = None, exitOnError = None\<rparr>"

record CheckEnvResult =
  missing :: "jsstring list"
  success :: bool

text \<open>
  The observable effects of a call, in the order they happen: one event per call of
  \<^verbatim>\<open>console.error\<close>, \<^verbatim>\<open>console.warn\<close> and \<^verbatim>\<open>process.exit\<close>, with its argument.
  \<^verbatim>\<open>process.exit\<close> ends the process, so a call either returns its result or is
  terminated with an exit status.
\<close>

datatype effect = ConsoleError jsstring | ConsoleWarn jsstring | ProcessExit int

datatype outcome = Returned CheckEnvResult | Terminated int

type_synonym run = "effect list \<times> outcome"

text \<open>The exit statuses passed to \<^verbatim>\<open>process.exit\<close> in a trace, and the blocks written
  to either console channel.\<close>

fun exitCalls :: "effect list \<Rightarrow> int list" where
  "exitCalls [] = []"
| "exitCalls (ProcessExit c # es) = c # exitCalls es"
| "exitCalls (e # es) = exitCalls es"

fun consoleWrites :: "effect list \<Rightarrow> jsstring list" where
  "consoleWrites [] = []"
| "consoleWrites (ConsoleError m # es) = m # consoleWrites es"
| "consoleWrites (ConsoleWarn m # es) = m # consoleWrites es"
| "consoleWrites (e # es) = consoleWrites es"

subsection \<open>formatErrorMessage\<close>

text \<open>
  The three fixed pieces of the template literal: the banner (skull and crossbones
  U+2620 U+FE0F, two spaces, the wording, one space, the skull again), the separator
  (35 times U+2500) and the marker (U+274C).
\<close>

definition banner :: jsstring where
  "banner = [0x2620, 0xFE0F] @ ascii ''  ENVIRONMENT VARIABLES MISSING '' @ [0x2620, 0xFE0F]"

definition separator :: jsstring where
  "separator = replicate 35 0x2500"

definition marker :: jsstring where
  "marker = [0x274C]"

text \<open>The arrow function \<^verbatim>\<open>(v) => `<marker> ${v}`\<close> mapped over the missing names.\<close>

definition markLine :: "jsstring \<Rightarrow> jsstring" where
  "markLine v = marker @ ascii '' '' @ v"

definition formatErrorMessage :: "jsstring list \<Rightarrow> jsstring" where
  "formatErrorMessage names =
     newline @ banner @ newline @ separator @ newline
       @ jsJoin newline (map markLine names) @ newline
       @ separator @ newline"

subsection \<open>getEnvSource\<close>

text \<open>
  \<open>penv\<close> is the ambient \<^verbatim>\<open>process.env\<close>. An object is truthy, so
  \<^verbatim>\<open>source || process.env\<close> (\<open>baseSource\<close>) is the source whenever one is given.
  \<^verbatim>\<open>!prefix\<close> holds for an absent and for an empty prefix. Otherwise \<^verbatim>\<open>filteredEnv\<close> starts
  as \<^verbatim>\<open>{}\<close> and \<^verbatim>\<open>filteredEnv[key] = envSource[key]\<close> runs for each key of
  \<^verbatim>\<open>Object.keys(envSource)\<close> that starts with the prefix. Such a key is an own key, so the
  value read is a string or \<^verbatim>\<open>undefined\<close> (lemma \<open>objRead_own\<close>); the branch for an object
  is never taken.
\<close>

definition copyIfPrefixed :: "jsobject \<Rightarrow> jsstring \<Rightarrow> jsstring \<Rightarrow> jsobject \<Rightarrow> jsobject" where
  "copyIfPrefixed envSource p key filteredEnv =
     (if startsWith key p
      then (case objRead envSource key of
              Undefined \<Rightarrow> objAssign filteredEnv key None
            | Str s \<Rightarrow> objAssign filteredEnv key (Some s)
            | Obj \<Rightarrow> filteredEnv)
      else filteredEnv)"

definition baseSource :: "jsobject \<Rightarrow> jsobject option \<Rightarrow> jsobject" where
  "baseSource penv src = (case src of Some s \<Rightarrow> s | None \<Rightarrow> penv)"

definition getEnvSource :: "jsobject \<Rightarrow> jsobject option \<Rightarrow> jsstring option \<Rightarrow> jsobject" where
  "getEnvSource penv src pre =
     (let envSource = baseSource penv src in
      case pre of
        None \<Rightarrow> envSource
      | Some p \<Rightarrow>
          if \<not> truthy (Str p) then envSource
          else fold (copyIfPrefixed envSource p) (objKeys envSource) emptyObject)"

subsection \<open>checkEnv\<close>

text \<open>
  The constants \<^verbatim>\<open>varsToCheck\<close> and \<^verbatim>\<open>missing\<close> of the body of \<^verbatim>\<open>checkEnv\<close>
  (lines 61 to 68), as functions of its inputs.
\<close>

definition varsToCheck :: "jsstring list \<Rightarrow> jsstring option \<Rightarrow> jsstring list" where
  "varsToCheck requiredVars pre =
     (case pre of
        None \<Rightarrow> requiredVars
      | Some p \<Rightarrow>
          if truthy (Str p) then filter (\<lambda>v. startsWith v p) requiredVars
          else requiredVars)"

definition missingVars :: "jsobject \<Rightarrow> jsstring list \<Rightarrow> CheckEnvOptions \<Rightarrow> jsstring list" where
  "missingVars penv requiredVars options =
     (let envSource = getEnvSource penv (source options) (prefix options) in
      filter (\<lambda>v. \<not> truthy (objRead envSource v))
             (varsToCheck requiredVars (prefix options)))"

text \<open>The destructuring default \<^verbatim>\<open>exitOnError = true\<close>.\<close>

definition exitOnErrorOf :: "CheckEnvOptions \<Rightarrow> bool" where
  "exitOnErrorOf options = (case exitOnError options of None \<Rightarrow> True | Some b \<Rightarrow> b)"

definition checkEnv :: "jsobject \<Rightarrow> jsstring list \<Rightarrow> CheckEnvOptions \<Rightarrow> run" where
  "checkEnv penv requiredVars options =
     (let exitOn = exitOnErrorOf options;
          missing = missingVars penv requiredVars options;
          success = (length missing = 0)
      in if \<not> success \<and> exitOn
         then ([ConsoleError (formatErrorMessage missing), ProcessExit 1], Terminated 1)
         else if \<not> success \<and> \<not> exitOn
         then ([ConsoleWarn (formatErrorMessage missing)],
               Returned \<lparr>missing = missing, success = success\<rparr>)
         else ([], Returned \<lparr>missing = missing, success = success\<rparr>))"

text \<open>\<^verbatim>\<open>checkEnv(requiredVars, { ...options, exitOnError: false })\<close>\<close>

definition checkEnvSafe :: "jsobject \<Rightarrow> jsstring list \<Rightarrow> CheckEnvOptions \<Rightarrow> run" where
  "checkEnvSafe penv requiredVars options =
     checkEnv penv requiredVars (options\<lparr>exitOnError := Some False\<rparr>)"

text \<open>\<^verbatim>\<open>checkEnv(Object.keys(source), { ...options, source })\<close>\<close>

definition checkEnvSource :: "jsobject \<Rightarrow> jsobject \<Rightarrow> CheckEnvOptions \<Rightarrow> run" where
  "checkEnvSource penv src options =
     checkEnv penv (objKeys src) (options\<lparr>source := Some src\<rparr>)"

section \<open>Notions of the specification\<close>

text \<open>
  The lines of a string, as \<^verbatim>\<open>s.split("\n")\<close> gives them: what a reader of the log sees.
  A block of lines is each line followed by a line break.
\<close>

fun splitLines :: "jsstring \<Rightarrow> jsstring list" where
  "splitLines [] = [[]]"
| "splitLines (c # cs) =
     (if c = 0x0A then [] # splitLines cs
      else (case splitLines cs of [] \<Rightarrow> [[c]] | l # ls \<Rightarrow> (c # l) # ls))"

definition blockOfLines :: "jsstring list \<Rightarrow> jsstring" where
  "blockOfLines ls = concat (map (\<lambda>l. l @ newline) ls)"

text \<open>
  The own keys of an object that start with \<open>p\<close> and hold \<^verbatim>\<open>undefined\<close> or the empty
  string, in the order of the object. Every string starts with the empty string, so
  \<open>keysWithoutValue []\<close> looks at every key.
\<close>

definition keysWithoutValue :: "jsstring \<Rightarrow> jsobject \<Rightarrow> jsstring list" where
  "keysWithoutValue p obj =
     map fst (filter (\<lambda>(k, v). startsWith k p \<and> (v = None \<or> v = Some [])) (props obj))"

section \<open>Properties\<close>

subsection \<open>Reading and writing objects\<close>

lemma startsWith_Nil: "startsWith s [] = True"
  by (simp add: startsWith_def)

lemma not_truthy_toVal: "(\<not> truthy (toVal x)) = (x = None \<or> x = Some [])"
  by (cases x) auto


lemma own_key_entry: "k \<in> set (objKeys obj) \<Longrightarrow> \<exists>v. map_of (props obj) k = Some v"
  by (simp add: objKeys_def) (metis image_set map_of_eq_None_iff not_Some_eq)

lemma objRead_own: "k \<in> set (objKeys obj) \<Longrightarrow> objRead obj k \<noteq> Obj"
proof -
  assume "k \<in> set (objKeys obj)"
  then obtain v where "map_of (props obj) k = Some v"
    using own_key_entry by blast
  then show ?thesis by (cases v) (simp_all add: objRead_def)
qed

lemma objRead_not_own: "k \<notin> set (objKeys obj) \<Longrightarrow> objRead obj k = inherited obj k"
  by (simp add: objRead_def objKeys_def map_of_eq_None_iff [THEN iffD2])

lemma objRead_entry: "wellFormed obj \<Longrightarrow> (k, v) \<in> set (props obj) \<Longrightarrow> objRead obj k = toVal v"
  by (simp add: objRead_def wellFormed_def)

lemma map_of_tableSet: "map_of (tableSet t k v) = (map_of t)(k \<mapsto> v)"
  by (induction t) auto

lemma keys_tableSet:
  "map fst (tableSet t k v) = (if k \<in> set (map fst t) then map fst t else map fst t @ [k])"
  by (induction t) (auto simp: rev_image_eqI)

lemma set_keys_tableSet: "set (map fst (tableSet t k v)) = insert k (set (map fst t))"
  by (auto simp: keys_tableSet)

text \<open>One assignment to an object that has no own \<^verbatim>\<open>__proto__\<close>.\<close>

lemma objRead_objAssign:
  "protoKey \<notin> set (objKeys obj) \<Longrightarrow>
   objRead (objAssign obj key v) k =
     (if k = key \<and> key \<noteq> protoKey then toVal v else objRead obj k)"
  by (auto simp: objAssign_def objRead_def map_of_tableSet split: option.splits)

lemma objKeys_objAssign:
  "set (objKeys (objAssign obj key v)) \<subseteq> insert key (set (objKeys obj)) \<and>
   (protoKey \<notin> set (objKeys obj) \<longrightarrow> protoKey \<notin> set (objKeys (objAssign obj key v)))"
  unfolding objAssign_def objKeys_def
  by (simp add: set_keys_tableSet del: set_map) (auto simp: set_keys_tableSet simp del: set_map)


lemma copy_step:
  assumes "map_of (props src) key = Some v"
  shows "copyIfPrefixed src p key acc = (if startsWith key p then objAssign acc key v else acc)"
  using assms by (cases v) (simp_all add: copyIfPrefixed_def objRead_def)


lemma objRead_fold_copy:
  assumes "set ks \<subseteq> set (objKeys src)" and "protoKey \<notin> set (objKeys acc)"
  shows "objRead (fold (copyIfPrefixed src p) ks acc) k =
     (if k \<in> set ks \<and> startsWith k p \<and> k \<noteq> protoKey then objRead src k else objRead acc k)"
  using assms
proof (induction ks arbitrary: acc)
  case Nil
  then show ?case by simp
next
  case (Cons key ks)
  then obtain v where v: "map_of (props src) key = Some v"
    using own_key_entry [of key src] by auto
  let ?acc = "copyIfPrefixed src p key acc"
  have step: "?acc = (if startsWith key p then objAssign acc key v else acc)"
    using v by (rule copy_step)
  have 1: "protoKey \<notin> set (objKeys ?acc)"
    using Cons.prems(2) objKeys_objAssign [of acc key v] by (simp add: step)
  have src: "objRead src key = toVal v"
    using v by (simp add: objRead_def)
  have read: "objRead ?acc k =
      (if k = key \<and> startsWith k p \<and> k \<noteq> protoKey then objRead src k else objRead acc k)"
    using Cons.prems(2) by (auto simp: step objRead_objAssign src)
  from Cons.prems(1) have "set ks \<subseteq> set (objKeys src)" by simp
  from Cons.IH [OF this 1] read show ?case by auto
qed

lemma emptyObject_facts:
  "objKeys emptyObject = []" "inherited emptyObject = objectPrototypeGet"
  "objRead emptyObject k = objectPrototypeGet k"
  by (simp_all add: emptyObject_def plainObject_def objKeys_def objRead_def)

lemma objRead_filtered:
  "p \<noteq> [] \<Longrightarrow> objRead (getEnvSource penv src (Some p)) k =
     (if k \<in> set (objKeys (baseSource penv src)) \<and> startsWith k p \<and> k \<noteq> protoKey
      then objRead (baseSource penv src) k else objectPrototypeGet k)"
  using objRead_fold_copy [of "objKeys (baseSource penv src)" "baseSource penv src" emptyObject p k]
  by (simp add: getEnvSource_def Let_def emptyObject_facts)


lemma protoKey_inherited: "objectPrototypeGet protoKey = Obj"
  by (simp add: objectPrototypeGet_def objectPrototypeKeys_def)

subsection \<open>The three ways a call of checkEnv ends\<close>

lemma checkEnv_cases:
  "checkEnv penv req opts =
     (if missingVars penv req opts = [] then ([], Returned \<lparr>missing = [], success = True\<rparr>)
      else if exitOnErrorOf opts
      then ([ConsoleError (formatErrorMessage (missingVars penv req opts)), ProcessExit 1],
            Terminated 1)
      else ([ConsoleWarn (formatErrorMessage (missingVars penv req opts))],
            Returned \<lparr>missing = missingVars penv req opts, success = False\<rparr>))"
  by (simp add: checkEnv_def Let_def)

lemma returned_missing:
  "snd (checkEnv penv req opts) = Returned r \<Longrightarrow> missing r = missingVars penv req opts"
  by (auto simp: checkEnv_cases split: if_splits)

lemma missingVars_unfiltered:
  "prefix opts = None \<or> prefix opts = Some [] \<Longrightarrow>
   missingVars penv req opts =
     filter (\<lambda>v. \<not> truthy (objRead (baseSource penv (source opts)) v)) req"
  by (auto simp: missingVars_def getEnvSource_def varsToCheck_def Let_def)

lemma varsToCheck_prefixed:
  "p \<noteq> [] \<Longrightarrow> varsToCheck req (Some p) = filter (\<lambda>v. startsWith v p) req"
  by (simp add: varsToCheck_def)

lemma missingVars_prefixed:
  "p \<noteq> [] \<Longrightarrow> prefix opts = Some p \<Longrightarrow>
   missingVars penv req opts =
     filter (\<lambda>v. startsWith v p \<and>
                \<not> truthy (if v \<in> set (objKeys (baseSource penv (source opts))) \<and> v \<noteq> protoKey
                          then objRead (baseSource penv (source opts)) v
                          else objectPrototypeGet v)) req"
  by (simp add: missingVars_def Let_def varsToCheck_prefixed objRead_filtered conj_commute
      cong: conj_cong)


lemma missingVars_exitOnError:
  "missingVars penv req (opts\<lparr>exitOnError := e\<rparr>) = missingVars penv req opts"
  by (simp add: missingVars_def)

text \<open>The definitions unfolded when a call is evaluated on concrete arguments.\<close>

lemmas eval_defs = checkEnv_def checkEnvSafe_def checkEnvSource_def missingVars_def
  getEnvSource_def varsToCheck_def baseSource_def exitOnErrorOf_def objKeys_def
  copyIfPrefixed_def startsWith_def ascii_def Let_def objRead_def objAssign_def
  plainObject_def emptyObject_def objectPrototypeGet_def objectPrototypeKeys_def protoKey_def

lemma filter_keys_entries:
  "wellFormed obj \<Longrightarrow>
   filter (\<lambda>k. P k (objRead obj k)) (objKeys obj) =
     map fst (filter (\<lambda>(k, v). P k (toVal v)) (props obj))"
proof -
  assume wf: "wellFormed obj"
  have "filter (\<lambda>k. P k (objRead obj k)) (map fst (props obj)) =
      map fst (filter (\<lambda>e. P (fst e) (objRead obj (fst e))) (props obj))"
    by (simp add: filter_map comp_def)
  also have "filter (\<lambda>e. P (fst e) (objRead obj (fst e))) (props obj) =
      filter (\<lambda>(k, v). P k (toVal v)) (props obj)"
    using wf by (intro filter_cong) (auto simp: objRead_entry)
  finally show ?thesis by (simp add: objKeys_def)
qed

lemma missingVars_of_keys_unfiltered:
  assumes "wellFormed src" and "prefix options = None \<or> prefix options = Some []"
  shows "missingVars penv (objKeys src) (options\<lparr>source := Some src\<rparr>) = keysWithoutValue [] src"
proof -
  have "missingVars penv (objKeys src) (options\<lparr>source := Some src\<rparr>) =
      filter (\<lambda>k. \<not> truthy (objRead src k)) (objKeys src)"
    using assms(2) by (simp add: missingVars_unfiltered baseSource_def)
  also have "\<dots> = map fst (filter (\<lambda>(k, v). \<not> truthy (toVal v)) (props src))"
    using filter_keys_entries [OF assms(1), of "\<lambda>k x. \<not> truthy x"] .
  finally show ?thesis
    by (simp add: keysWithoutValue_def startsWith_Nil not_truthy_toVal)
qed

lemma missingVars_of_keys_prefixed:
  assumes "wellFormed src" and "prefix options = Some p" and "p \<noteq> []"
  shows "missingVars penv (objKeys src) (options\<lparr>source := Some src\<rparr>) =
           filter (\<lambda>k. k \<noteq> protoKey) (keysWithoutValue p src)"
proof -
  let ?P = "\<lambda>k x. startsWith k p \<and> k \<noteq> protoKey \<and> \<not> truthy x"
  have "missingVars penv (objKeys src) (options\<lparr>source := Some src\<rparr>) =
      filter (\<lambda>v. startsWith v p \<and>
                \<not> truthy (if v \<in> set (objKeys src) \<and> v \<noteq> protoKey
                          then objRead src v else objectPrototypeGet v)) (objKeys src)"
    using assms(2,3) by (simp add: missingVars_prefixed baseSource_def)
  also have "\<dots> = filter (\<lambda>k. ?P k (objRead src k)) (objKeys src)"
    by (intro filter_cong) (auto simp: protoKey_inherited)
  also have "\<dots> = map fst (filter (\<lambda>(k, v). ?P k (toVal v)) (props src))"
    using assms(1) by (rule filter_keys_entries)
  also have "\<dots> = filter (\<lambda>k. k \<noteq> protoKey) (keysWithoutValue p src)"
    by (simp add: keysWithoutValue_def filter_map comp_def not_truthy_toVal case_prod_unfold
        conj_commute conj_left_commute cong: conj_cong)
  finally show ?thesis .
qed

lemma checkEnvSource_source_overridden:
  "checkEnvSource penv src (options\<lparr>source := other\<rparr>) = checkEnvSource penv src options"
  by (simp add: checkEnvSource_def)

subsection \<open>The diagnostic block\<close>

lemma jsJoin_newline_block: "xs \<noteq> [] \<Longrightarrow> jsJoin newline xs @ newline = blockOfLines xs"
  by (induction newline xs rule: jsJoin.induct) (simp_all add: blockOfLines_def)

lemma blockOfLines_append: "blockOfLines (xs @ ys) = blockOfLines xs @ blockOfLines ys"
  by (simp add: blockOfLines_def)

lemma formatErrorMessage_block:
  assumes "names \<noteq> []"
  shows "formatErrorMessage names =
           newline @ blockOfLines ([banner, separator] @ map markLine names @ [separator])"
proof -
  have "jsJoin newline (map markLine names) @ newline = blockOfLines (map markLine names)"
    using assms by (simp add: jsJoin_newline_block)
  then have "formatErrorMessage names =
      newline @ banner @ newline @ separator @ newline @ blockOfLines (map markLine names)
        @ separator @ newline"
    by (simp add: formatErrorMessage_def)
  then show ?thesis
    by (simp add: blockOfLines_append) (simp add: blockOfLines_def)
qed

lemma splitLines_line:
  "0x0A \<notin> set l \<Longrightarrow> splitLines (l @ newline @ rest) = l # splitLines rest"
  by (induction l) (auto simp: newline_def)

lemma splitLines_block:
  "(\<And>l. l \<in> set ls \<Longrightarrow> 0x0A \<notin> set l) \<Longrightarrow> splitLines (blockOfLines ls @ rest) = ls @ splitLines rest"
proof (induction ls)
  case Nil
  then show ?case by (simp add: blockOfLines_def)
next
  case (Cons l ls)
  have "splitLines (blockOfLines (l # ls) @ rest) = splitLines (l @ newline @ (blockOfLines ls @ rest))"
    by (simp add: blockOfLines_def)
  also have "\<dots> = l # splitLines (blockOfLines ls @ rest)"
    using Cons.prems by (simp add: splitLines_line)
  finally show ?case using Cons by simp
qed

lemma banner_one_line: "0x0A \<notin> set banner"
  by (simp add: banner_def ascii_def)

lemma separator_one_line: "0x0A \<notin> set separator"
  by (simp add: separator_def)

lemma markLine_one_line: "0x0A \<notin> set v \<Longrightarrow> 0x0A \<notin> set (markLine v)"
  by (simp add: markLine_def marker_def ascii_def)

lemma formatErrorMessage_lines:
  assumes "names \<noteq> []" and "\<And>v. v \<in> set names \<Longrightarrow> 0x0A \<notin> set v"
  shows "splitLines (formatErrorMessage names) =
           [[], banner, separator] @ map markLine names @ [separator, []]"
proof -
  let ?ls = "[banner, separator] @ map markLine names @ [separator]"
  have one: "\<And>l. l \<in> set ?ls \<Longrightarrow> 0x0A \<notin> set l"
    using assms(2) banner_one_line separator_one_line markLine_one_line by auto
  have "splitLines (formatErrorMessage names) = splitLines ([] @ newline @ (blockOfLines ?ls @ []))"
    using assms(1) by (simp add: formatErrorMessage_block)
  also have "\<dots> = [] # splitLines (blockOfLines ?ls @ [])"
    by (rule splitLines_line) simp
  also have "\<dots> = [] # (?ls @ splitLines [])"
    using splitLines_block [of ?ls "[]"] one by blast
  finally show ?thesis by simp
qed

lemma formatErrorMessage_mentions:
  assumes "v \<in> set names"
  shows "\<exists>before after. formatErrorMessage names = before @ markLine v @ newline @ after"
proof -
  from assms obtain as bs where split: "names = as @ v # bs"
    by (auto dest: split_list)
  then have "names \<noteq> []" by simp
  then have "formatErrorMessage names =
      (newline @ blockOfLines ([banner, separator] @ map markLine as)) @ markLine v @ newline
        @ blockOfLines (map markLine bs @ [separator])"
    by (simp add: formatErrorMessage_block split blockOfLines_def)
  then show ?thesis by blast
qed

lemma consoleWrites_checkEnv:
  "consoleWrites (fst (checkEnv penv req opts)) =
     (if missingVars penv req opts = [] then []
      else [formatErrorMessage (missingVars penv req opts)])"
  by (simp add: checkEnv_cases)

lemma banner_units:
  "banner = [0x2620, 0xFE0F, 0x20, 0x20] @ ascii ''ENVIRONMENT VARIABLES MISSING''
              @ [0x20, 0x2620, 0xFE0F]"
  by (simp add: banner_def ascii_def)

lemma markLine_units: "markLine v = [0x274C, 0x20] @ v"
  by (simp add: markLine_def marker_def ascii_def)

lemma block_ends: "\<exists>pre. newline @ blockOfLines ls = pre @ newline"
proof (cases ls rule: rev_cases)
  case Nil
  then show ?thesis by (simp add: blockOfLines_def)
next
  case (snoc xs x)
  then have "newline @ blockOfLines ls = (newline @ blockOfLines xs @ x) @ newline"
    by (simp add: blockOfLines_def)
  then show ?thesis by blast
qed

subsection \<open>When filtering the source changes nothing\<close>

text \<open>
  For a source whose prototype is \<^verbatim>\<open>Object.prototype\<close> and that has no own key
  \<^verbatim>\<open>__proto__\<close>, a call with a non-empty prefix runs as the call with no prefix on the
  required names that start with the prefix.
\<close>

lemma source_filter_redundant_plain:
  assumes "p \<noteq> []" and "inherited src = objectPrototypeGet"
    and "protoKey \<notin> set (objKeys src)"
  shows "checkEnv penv requiredVars \<lparr>prefix = Some p, source = Some src, exitOnError = e\<rparr> =
         checkEnv penv (filter (\<lambda>v. startsWith v p) requiredVars)
           \<lparr>prefix = None, source = Some src, exitOnError = e\<rparr>"
proof -
  have same: "\<And>v. (if v \<in> set (objKeys src) \<and> v \<noteq> protoKey then objRead src v
                       else objectPrototypeGet v) = objRead src v"
    using assms(2,3) by (auto simp: objRead_not_own)
  have "missingVars penv requiredVars \<lparr>prefix = Some p, source = Some src, exitOnError = e\<rparr> =
      filter (\<lambda>v. startsWith v p \<and>
                \<not> truthy (if v \<in> set (objKeys src) \<and> v \<noteq> protoKey
                          then objRead src v else objectPrototypeGet v)) requiredVars"
    using assms(1)
      missingVars_prefixed [of p "\<lparr>prefix = Some p, source = Some src, exitOnError = e\<rparr>"
        penv requiredVars]
    by (simp add: baseSource_def cong: if_cong)
  also have "\<dots> = filter (\<lambda>v. startsWith v p \<and> \<not> truthy (objRead src v)) requiredVars"
    by (simp only: same)
  also have "\<dots> = missingVars penv (filter (\<lambda>v. startsWith v p) requiredVars)
      \<lparr>prefix = None, source = Some src, exitOnError = e\<rparr>"
    by (simp add: missingVars_unfiltered baseSource_def conj_commute cong: conj_cong)
  finally have "missingVars penv requiredVars
        \<lparr>prefix = Some p, source = Some src, exitOnError = e\<rparr> =
      missingVars penv (filter (\<lambda>v. startsWith v p) requiredVars)
        \<lparr>prefix = None, source = Some src, exitOnError = e\<rparr>" .
  then show ?thesis by (simp add: checkEnv_cases exitOnErrorOf_def)
qed

subsection \<open>The scenarios of the specification\<close>

text \<open>
  The model run on the scenarios A to F of the specification, which are also cases of the
  repository's test suite, and on four calls that read through the prototype chain.
\<close>

lemma scenario_A:
  "checkEnv emptyObject [ascii ''API_KEY'', ascii ''DATABASE_URL'']
     \<lparr>prefix = None,
      source = Some (plainObject [(ascii ''API_KEY'', Some (ascii ''k'')),
                     (ascii ''DATABASE_URL'', Some (ascii ''u''))]),
      exitOnError = Some False\<rparr> = ([], Returned \<lparr>missing = [], success = True\<rparr>)"
  by (simp add: eval_defs)

lemma scenario_B:
  "checkEnv emptyObject [ascii ''API_KEY'', ascii ''DATABASE_URL'']
     \<lparr>prefix = None, source = Some (plainObject [(ascii ''API_KEY'', Some (ascii ''k''))]),
      exitOnError = Some False\<rparr> =
     ([ConsoleWarn (formatErrorMessage [ascii ''DATABASE_URL''])],
      Returned \<lparr>missing = [ascii ''DATABASE_URL''], success = False\<rparr>)"
  by (simp add: eval_defs)

lemma scenario_C:
  "checkEnv emptyObject [ascii ''NEXT_API_URL'', ascii ''OTHER_VAR'']
     \<lparr>prefix = Some (ascii ''NEXT_''),
      source = Some (plainObject [(ascii ''NEXT_API_URL'', Some (ascii ''u'')),
                     (ascii ''OTHER_VAR'', Some (ascii ''o''))]),
      exitOnError = Some False\<rparr> = ([], Returned \<lparr>missing = [], success = True\<rparr>)"
  by (simp add: eval_defs)

lemma scenario_D:
  "checkEnvSource emptyObject
     (plainObject [(ascii ''API_KEY'', Some (ascii ''k'')), (ascii ''SECRET'', None)])
     \<lparr>prefix = None, source = None, exitOnError = Some False\<rparr> =
     ([ConsoleWarn (formatErrorMessage [ascii ''SECRET''])],
      Returned \<lparr>missing = [ascii ''SECRET''], success = False\<rparr>)"
  by (simp add: eval_defs)

lemma scenario_E:
  "checkEnv penv [] options = ([], Returned \<lparr>missing = [], success = True\<rparr>)"
  by (simp add: checkEnv_cases) (simp add: missingVars_def varsToCheck_def split: option.split)

lemma scenario_F:
  "checkEnv emptyObject [ascii ''MISSING''] noOptions =
     ([ConsoleError (formatErrorMessage [ascii ''MISSING'']), ProcessExit 1], Terminated 1)"
  by (simp add: eval_defs noOptions_def)

lemma inherited_toString:
  "checkEnv emptyObject [ascii ''toString'']
     \<lparr>prefix = None, source = Some emptyObject, exitOnError = Some False\<rparr> =
     ([], Returned \<lparr>missing = [], success = True\<rparr>)"
  by (simp add: eval_defs)

lemma inherited_constructor:
  "checkEnv emptyObject [ascii ''constructor''] noOptions =
     ([], Returned \<lparr>missing = [], success = True\<rparr>)"
  by (simp add: eval_defs noOptions_def)

lemma filtered_copy_drops_proto:
  "getEnvSource emptyObject
     (Some (plainObject [(ascii ''__proto__'', Some (ascii ''x'')), (ascii ''__a'', Some (ascii ''y''))]))
     (Some (ascii ''__'')) = plainObject [(ascii ''__a'', Some (ascii ''y''))]"
  by (simp add: eval_defs)

lemma checkEnvSource_proto:
  "checkEnvSource emptyObject (plainObject [(ascii ''__proto__'', Some [])])
     \<lparr>prefix = Some (ascii ''__''), source = None, exitOnError = Some False\<rparr> =
     ([], Returned \<lparr>missing = [], success = True\<rparr>)"
  by (simp add: eval_defs)

subsection \<open>The checked claims\<close>


text \<open>
  C2. Whichever of \<open>checkEnv\<close>, \<open>checkEnvSafe\<close> and \<open>checkEnvSource\<close> is called and
  whatever its arguments, a returned result has \<open>success\<close> exactly when its \<open>missing\<close>
  list is empty.
\<close>

theorem result_fields_agree:
  "(snd (checkEnv penv requiredVars options) = Returned r \<longrightarrow>
      success r = (missing r = [])) \<and>
   (snd (checkEnvSafe penv requiredVars options) = Returned r' \<longrightarrow>
      success r' = (missing r' = [])) \<and>
   (snd (checkEnvSource penv src options) = Returned r'' \<longrightarrow>
      success r'' = (missing r'' = []))"
  by (auto simp: checkEnvSafe_def checkEnvSource_def checkEnv_cases split: if_splits)

theorem result_fields_agree_witness:
  "snd (checkEnv emptyObject [ascii ''A'']
          \<lparr>prefix = None, source = None, exitOnError = Some False\<rparr>)
     = Returned \<lparr>missing = [ascii ''A''], success = False\<rparr> \<and>
   snd (checkEnvSafe emptyObject [ascii ''A'']
          \<lparr>prefix = None, source = None, exitOnError = Some False\<rparr>)
     = Returned \<lparr>missing = [ascii ''A''], success = False\<rparr> \<and>
   snd (checkEnvSource emptyObject (plainObject [(ascii ''A'', Some (ascii ''k''))])
          \<lparr>prefix = None, source = None, exitOnError = Some False\<rparr>)
     = Returned \<lparr>missing = [], success = True\<rparr> \<and>
   success \<lparr>missing = [ascii ''A''], success = False\<rparr>
     = (missing \<lparr>missing = [ascii ''A''], success = False\<rparr> = []) \<and>
   success \<lparr>missing = [], success = True\<rparr>
     = (missing \<lparr>missing = ([] :: jsstring list), success = True\<rparr> = [])"
  using result_fields_agree [of emptyObject "[ascii ''A'']"
      "\<lparr>prefix = None, source = None, exitOnError = Some False\<rparr>"
      "\<lparr>missing = [ascii ''A''], success = False\<rparr>"
      "\<lparr>missing = [ascii ''A''], success = False\<rparr>"
      "plainObject [(ascii ''A'', Some (ascii ''k''))]"
      "\<lparr>missing = [], success = True\<rparr>"]
  by (simp add: eval_defs)



text \<open>
  C4. Whatever the options, also with \<^verbatim>\<open>exitOnError: true\<close>, \<open>checkEnvSafe\<close> makes no call
  of \<^verbatim>\<open>process.exit\<close>, returns a result, and runs exactly as \<open>checkEnv\<close> does on the same
  options with \<open>exitOnError\<close> set to false.
\<close>

theorem checkEnvSafe_never_exits:
  "exitCalls (fst (checkEnvSafe penv requiredVars options)) = [] \<and>
   snd (checkEnvSafe penv requiredVars options) =
     Returned \<lparr>missing = missingVars penv requiredVars options,
               success = (missingVars penv requiredVars options = [])\<rparr> \<and>
   checkEnvSafe penv requiredVars options =
     checkEnv penv requiredVars
       \<lparr>prefix = prefix options, source = source options, exitOnError = Some False\<rparr>"
proof -
  have same: "options\<lparr>exitOnError := Some False\<rparr> =
      \<lparr>prefix = prefix options, source = source options, exitOnError = Some False\<rparr>"
    by simp
  have run: "checkEnvSafe penv requiredVars options =
      (if missingVars penv requiredVars options = []
       then ([], Returned \<lparr>missing = [], success = True\<rparr>)
       else ([ConsoleWarn (formatErrorMessage (missingVars penv requiredVars options))],
             Returned \<lparr>missing = missingVars penv requiredVars options, success = False\<rparr>))"
    by (simp add: checkEnvSafe_def checkEnv_cases missingVars_exitOnError exitOnErrorOf_def)
  have "exitCalls (fst (checkEnvSafe penv requiredVars options)) = []"
    by (simp add: run)
  moreover have "snd (checkEnvSafe penv requiredVars options) =
      Returned \<lparr>missing = missingVars penv requiredVars options,
                success = (missingVars penv requiredVars options = [])\<rparr>"
    by (simp add: run)
  moreover have "checkEnvSafe penv requiredVars options =
      checkEnv penv requiredVars
        \<lparr>prefix = prefix options, source = source options, exitOnError = Some False\<rparr>"
    unfolding checkEnvSafe_def same ..
  ultimately show ?thesis by blast
qed

text \<open>
  C5. When the computed \<open>missing\<close> list is not empty and \<open>exitOnError\<close> is true or absent,
  \<open>checkEnv\<close> writes the formatted block with \<^verbatim>\<open>console.error\<close>, then calls
  \<^verbatim>\<open>process.exit(1)\<close> and does not return. On no input is \<^verbatim>\<open>process.exit\<close> called with a
  status other than 1.
\<close>

theorem checkEnv_exits_with_1:
  "(missingVars penv requiredVars options \<noteq> [] \<and> exitOnError options \<in> {None, Some True}
      \<longrightarrow> checkEnv penv requiredVars options =
            ([ConsoleError (formatErrorMessage (missingVars penv requiredVars options)),
              ProcessExit 1], Terminated 1)) \<and>
   set (exitCalls (fst (checkEnv penv requiredVars options))) \<subseteq> {1} \<and>
   snd (checkEnv penv requiredVars options) \<noteq> Terminated 0"
  by (auto simp: checkEnv_cases exitOnErrorOf_def split: option.splits)

theorem checkEnv_exits_with_1_witness:
  "missingVars emptyObject [ascii ''MISSING''] noOptions \<noteq> [] \<and>
   exitOnError noOptions \<in> {None, Some True} \<and>
   checkEnv emptyObject [ascii ''MISSING''] noOptions =
     ([ConsoleError (formatErrorMessage [ascii ''MISSING'']), ProcessExit 1], Terminated 1)"
  using checkEnv_exits_with_1 [of emptyObject "[ascii ''MISSING'']" noOptions]
  by (simp add: eval_defs noOptions_def)

text \<open>
  C6, as amended. \<open>checkEnvSource\<close> ignores a \<open>source\<close> field of its options and checks the
  keys of the given object in their order. Among the keys other than \<^verbatim>\<open>__proto__\<close>, what
  it reports is exactly the keys that start with the prefix of the options and hold
  \<^verbatim>\<open>undefined\<close> or the empty string; with no prefix or an empty one these are all the keys
  without a value. For an object with no own key \<^verbatim>\<open>__proto__\<close> this is the whole
  \<open>missing\<close> list and the one block written. A key holding a non-empty string is never
  reported.
\<close>

theorem checkEnvSource_missing_keys:
  assumes "wellFormed src"
  shows "checkEnvSource penv src (options\<lparr>source := other\<rparr>) = checkEnvSource penv src options \<and>
         filter (\<lambda>k. k \<noteq> ascii ''__proto__'')
             (missingVars penv (objKeys src) (options\<lparr>source := Some src\<rparr>)) =
           filter (\<lambda>k. k \<noteq> ascii ''__proto__'')
             (keysWithoutValue (case prefix options of None \<Rightarrow> [] | Some p \<Rightarrow> p) src) \<and>
         (snd (checkEnvSource penv src options) = Returned r \<longrightarrow>
            filter (\<lambda>k. k \<noteq> ascii ''__proto__'') (missing r) =
              filter (\<lambda>k. k \<noteq> ascii ''__proto__'')
                (keysWithoutValue (case prefix options of None \<Rightarrow> [] | Some p \<Rightarrow> p) src)) \<and>
         (ascii ''__proto__'' \<notin> set (objKeys src) \<longrightarrow>
            missingVars penv (objKeys src) (options\<lparr>source := Some src\<rparr>) =
              keysWithoutValue (case prefix options of None \<Rightarrow> [] | Some p \<Rightarrow> p) src \<and>
            consoleWrites (fst (checkEnvSource penv src options)) =
              (if keysWithoutValue (case prefix options of None \<Rightarrow> [] | Some p \<Rightarrow> p) src = []
               then []
               else [formatErrorMessage
                  (keysWithoutValue (case prefix options of None \<Rightarrow> [] | Some p \<Rightarrow> p) src)])) \<and>
         (prefix options \<in> {None, Some []} \<longrightarrow>
            missingVars penv (objKeys src) (options\<lparr>source := Some src\<rparr>) =
              map fst (filter (\<lambda>(key, x). x = None \<or> x = Some []) (props src))) \<and>
         ((key, Some s) \<in> set (props src) \<and> s \<noteq> [] \<longrightarrow>
            key \<notin> set (missingVars penv (objKeys src) (options\<lparr>source := Some src\<rparr>)))"
proof -
  let ?pfx = "case prefix options of None \<Rightarrow> [] | Some p \<Rightarrow> p"
  let ?K = "keysWithoutValue ?pfx src"
  let ?M = "missingVars penv (objKeys src) (options\<lparr>source := Some src\<rparr>)"
  let ?np = "\<lambda>k. k \<noteq> ascii ''__proto__''"
  have pk: "protoKey = ascii ''__proto__''" by (simp add: protoKey_def)
  have M: "?M = (if prefix options = None \<or> prefix options = Some [] then ?K else filter ?np ?K)"
  proof (cases "prefix options = None \<or> prefix options = Some []")
    case True
    then have "?pfx = []" by auto
    with True missingVars_of_keys_unfiltered [OF assms True, of penv] show ?thesis by simp
  next
    case False
    then obtain p where p: "prefix options = Some p" "p \<noteq> []" by (cases "prefix options") auto
    with False missingVars_of_keys_prefixed [OF assms p, of penv] show ?thesis by (simp add: pk)
  qed
  have Kset: "set ?K \<subseteq> set (objKeys src)"
    by (auto simp: keysWithoutValue_def objKeys_def)
  have filt: "filter ?np ?M = filter ?np ?K"
    by (simp add: M)
  have ret: "snd (checkEnvSource penv src options) = Returned r \<longrightarrow>
      filter ?np (missing r) = filter ?np ?K"
    using returned_missing [of penv "objKeys src" "options\<lparr>source := Some src\<rparr>" r] filt
    by (auto simp: checkEnvSource_def)
  have noproto: "ascii ''__proto__'' \<notin> set (objKeys src) \<longrightarrow> ?M = ?K"
  proof
    assume "ascii ''__proto__'' \<notin> set (objKeys src)"
    with Kset have "filter ?np ?K = ?K" by (auto simp: filter_id_conv)
    then show "?M = ?K" by (simp add: M)
  qed
  have con: "ascii ''__proto__'' \<notin> set (objKeys src) \<longrightarrow>
      consoleWrites (fst (checkEnvSource penv src options)) =
        (if ?K = [] then [] else [formatErrorMessage ?K])"
    using noproto by (auto simp: checkEnvSource_def consoleWrites_checkEnv)
  have all: "prefix options \<in> {None, Some []} \<longrightarrow>
      ?M = map fst (filter (\<lambda>(key, x). x = None \<or> x = Some []) (props src))"
    by (auto simp: M keysWithoutValue_def startsWith_Nil)
  have val: "(key, Some s) \<in> set (props src) \<and> s \<noteq> [] \<longrightarrow> key \<notin> set ?M"
  proof
    assume entry: "(key, Some s) \<in> set (props src) \<and> s \<noteq> []"
    have "key \<notin> set ?K"
    proof
      assume "key \<in> set ?K"
      then obtain x where x: "(key, x) \<in> set (props src)" "x = None \<or> x = Some []"
        by (auto simp: keysWithoutValue_def)
      from assms entry have "objRead src key = toVal (Some s)"
        using objRead_entry [of src key "Some s"] by simp
      moreover from assms x have "objRead src key = toVal x"
        using objRead_entry [of src key x] by simp
      ultimately show False using entry x by auto
    qed
    then show "key \<notin> set ?M" by (auto simp: M)
  qed
  from filt ret noproto con all val show ?thesis
    by (simp add: checkEnvSource_source_overridden)
qed

theorem checkEnvSource_missing_keys_witness:
  "wellFormed (plainObject [(ascii ''N_A'', None), (ascii ''O'', None), (ascii ''N_B'', Some []),
               (ascii ''N_C'', Some (ascii ''c''))]) \<and>
   ascii ''__proto__'' \<notin> set (objKeys (plainObject [(ascii ''N_A'', None), (ascii ''O'', None),
               (ascii ''N_B'', Some []), (ascii ''N_C'', Some (ascii ''c''))])) \<and>
   snd (checkEnvSource emptyObject
          (plainObject [(ascii ''N_A'', None), (ascii ''O'', None), (ascii ''N_B'', Some []),
           (ascii ''N_C'', Some (ascii ''c''))])
          \<lparr>prefix = Some (ascii ''N_''), source = None, exitOnError = Some False\<rparr>) =
     Returned \<lparr>missing = [ascii ''N_A'', ascii ''N_B''], success = False\<rparr> \<and>
   keysWithoutValue (ascii ''N_'')
     (plainObject [(ascii ''N_A'', None), (ascii ''O'', None), (ascii ''N_B'', Some []),
      (ascii ''N_C'', Some (ascii ''c''))]) = [ascii ''N_A'', ascii ''N_B''] \<and>
   (ascii ''N_C'', Some (ascii ''c'')) \<in>
     set (props (plainObject [(ascii ''N_A'', None), (ascii ''O'', None), (ascii ''N_B'', Some []),
          (ascii ''N_C'', Some (ascii ''c''))])) \<and>
   ascii ''c'' \<noteq> [] \<and>
   missingVars emptyObject
     (objKeys (plainObject [(ascii ''N_A'', None), (ascii ''O'', None), (ascii ''N_B'', Some []),
               (ascii ''N_C'', Some (ascii ''c''))]))
     \<lparr>prefix = None,
      source = Some (plainObject [(ascii ''N_A'', None), (ascii ''O'', None),
                     (ascii ''N_B'', Some []), (ascii ''N_C'', Some (ascii ''c''))]),
      exitOnError = Some False\<rparr> =
     [ascii ''N_A'', ascii ''O'', ascii ''N_B'']"
  using checkEnvSource_missing_keys [where
      src = "plainObject [(ascii ''N_A'', None), (ascii ''O'', None), (ascii ''N_B'', Some []),
              (ascii ''N_C'', Some (ascii ''c''))]"
      and penv = emptyObject
      and options = "\<lparr>prefix = Some (ascii ''N_''), source = None, exitOnError = Some False\<rparr>"
      and other = None
      and r = "\<lparr>missing = [ascii ''N_A'', ascii ''N_B''], success = False\<rparr>"
      and key = "ascii ''N_C''" and s = "ascii ''c''"]
    checkEnvSource_missing_keys [where
      src = "plainObject [(ascii ''N_A'', None), (ascii ''O'', None), (ascii ''N_B'', Some []),
              (ascii ''N_C'', Some (ascii ''c''))]"
      and penv = emptyObject
      and options = "\<lparr>prefix = None, source = None, exitOnError = Some False\<rparr>"
      and other = None
      and r = "\<lparr>missing = [ascii ''N_A'', ascii ''O'', ascii ''N_B''], success = False\<rparr>"
      and key = "ascii ''N_C''" and s = "ascii ''c''"]
  by (simp add: eval_defs wellFormed_def keysWithoutValue_def)

text \<open>
  The object \<^verbatim>\<open>{NEXT_SECRET: undefined, OTHER_VAR: undefined}\<close> checked with the prefix
  \<^verbatim>\<open>NEXT_\<close>: \<^verbatim>\<open>OTHER_VAR\<close> is a key of the object and holds \<^verbatim>\<open>undefined\<close>, and it is not
  reported.
\<close>

theorem checkEnvSource_prefix_counterexample:
  "checkEnvSource emptyObject
     (plainObject [(ascii ''NEXT_SECRET'', None), (ascii ''OTHER_VAR'', None)])
     \<lparr>prefix = Some (ascii ''NEXT_''), source = None, exitOnError = Some False\<rparr> =
     ([ConsoleWarn (formatErrorMessage [ascii ''NEXT_SECRET''])],
      Returned \<lparr>missing = [ascii ''NEXT_SECRET''], success = False\<rparr>) \<and>
   wellFormed (plainObject [(ascii ''NEXT_SECRET'', None), (ascii ''OTHER_VAR'', None)]) \<and>
   objKeys (plainObject [(ascii ''NEXT_SECRET'', None), (ascii ''OTHER_VAR'', None)]) =
     [ascii ''NEXT_SECRET'', ascii ''OTHER_VAR''] \<and>
   objRead (plainObject [(ascii ''NEXT_SECRET'', None), (ascii ''OTHER_VAR'', None)])
     (ascii ''OTHER_VAR'') = Undefined \<and>
   keysWithoutValue [] (plainObject [(ascii ''NEXT_SECRET'', None), (ascii ''OTHER_VAR'', None)]) =
     [ascii ''NEXT_SECRET'', ascii ''OTHER_VAR'']"
  by (simp add: eval_defs wellFormed_def keysWithoutValue_def)

text \<open>
  C7. When the computed \<open>missing\<close> list is empty, and so for an empty list of required
  names with any source and options, \<open>checkEnv\<close> writes nothing to either channel, does not
  call \<^verbatim>\<open>process.exit\<close>, and returns \<^verbatim>\<open>{missing: [], success: true}\<close>, whatever
  \<open>exitOnError\<close> is.
\<close>

theorem checkEnv_silent_on_success:
  "(missingVars penv requiredVars options = [] \<longrightarrow>
      checkEnv penv requiredVars options = ([], Returned \<lparr>missing = [], success = True\<rparr>)) \<and>
   checkEnv penv [] options = ([], Returned \<lparr>missing = [], success = True\<rparr>)"
  by (simp add: checkEnv_cases) (simp add: missingVars_def varsToCheck_def split: option.split)

theorem checkEnv_silent_on_success_witness:
  "missingVars emptyObject [ascii ''A'']
     \<lparr>prefix = None, source = Some (plainObject [(ascii ''A'', Some (ascii ''k''))]),
      exitOnError = None\<rparr> = [] \<and>
   checkEnv emptyObject [ascii ''A'']
     \<lparr>prefix = None, source = Some (plainObject [(ascii ''A'', Some (ascii ''k''))]),
      exitOnError = None\<rparr>
     = ([], Returned \<lparr>missing = [], success = True\<rparr>)"
  using checkEnv_silent_on_success [of emptyObject "[ascii ''A'']"
      "\<lparr>prefix = None, source = Some (plainObject [(ascii ''A'', Some (ascii ''k''))]),
        exitOnError = None\<rparr>"]
  by (simp add: eval_defs)

text \<open>
  C8, as amended. For a non-empty \<open>missing\<close> list whose names contain no line break, the
  lines of the diagnostic are: an empty line, the banner (U+2620 U+FE0F, two spaces, the
  wording, a space, U+2620 U+FE0F), the separator (35 times U+2500), one line per missing
  name in the order of the list, each the marker U+274C, a space and the name, the same
  separator again, and an empty line. For every non-empty list each name occurs in the
  block after a line break, the marker and a space and before a line break, and the block
  is written by one call of the console.
\<close>

theorem diagnostic_block:
  assumes "names \<noteq> []"
  shows "((\<forall>v \<in> set names. 0x0A \<notin> set v) \<longrightarrow>
            splitLines (formatErrorMessage names) =
              [[],
               [0x2620, 0xFE0F, 0x20, 0x20] @ ascii ''ENVIRONMENT VARIABLES MISSING''
                 @ [0x20, 0x2620, 0xFE0F],
               replicate 35 0x2500]
              @ map (\<lambda>v. [0x274C, 0x20] @ v) names
              @ [replicate 35 0x2500, []]) \<and>
         (\<forall>v \<in> set names. \<exists>before after.
            formatErrorMessage names = before @ [0x0A, 0x274C, 0x20] @ v @ [0x0A] @ after) \<and>
         (missingVars penv requiredVars options = names \<longrightarrow>
            consoleWrites (fst (checkEnv penv requiredVars options)) =
              [formatErrorMessage names])"
proof -
  have mark: "markLine = (\<lambda>v. [0x274C, 0x20] @ v)"
    by (rule ext) (simp add: markLine_units)
  have "(\<forall>v \<in> set names. 0x0A \<notin> set v) \<longrightarrow>
      splitLines (formatErrorMessage names) =
        [[], banner, separator] @ map markLine names @ [separator, []]"
    using assms formatErrorMessage_lines by blast
  then have lines: "(\<forall>v \<in> set names. 0x0A \<notin> set v) \<longrightarrow>
      splitLines (formatErrorMessage names) =
        [[], [0x2620, 0xFE0F, 0x20, 0x20] @ ascii ''ENVIRONMENT VARIABLES MISSING''
               @ [0x20, 0x2620, 0xFE0F], replicate 35 0x2500]
        @ map (\<lambda>v. [0x274C, 0x20] @ v) names @ [replicate 35 0x2500, []]"
    unfolding mark banner_units separator_def .
  have occurs: "\<forall>v \<in> set names. \<exists>before after.
      formatErrorMessage names = before @ [0x0A, 0x274C, 0x20] @ v @ [0x0A] @ after"
  proof
    fix v assume "v \<in> set names"
    then obtain as bs where split: "names = as @ v # bs"
      by (auto dest: split_list)
    then have "formatErrorMessage names =
        (newline @ blockOfLines ([banner, separator] @ map markLine as)) @ markLine v @ newline
          @ blockOfLines (map markLine bs @ [separator])"
      by (simp add: formatErrorMessage_block blockOfLines_def)
    moreover obtain pre where
      "newline @ blockOfLines ([banner, separator] @ map markLine as) = pre @ newline"
      using block_ends by blast
    ultimately have "formatErrorMessage names =
        pre @ [0x0A, 0x274C, 0x20] @ v @ [0x0A]
          @ blockOfLines (map markLine bs @ [separator])"
      by (simp add: markLine_units newline_def)
    then show "\<exists>before after.
        formatErrorMessage names = before @ [0x0A, 0x274C, 0x20] @ v @ [0x0A] @ after"
      by blast
  qed
  have once: "missingVars penv requiredVars options = names \<longrightarrow>
      consoleWrites (fst (checkEnv penv requiredVars options)) = [formatErrorMessage names]"
    using assms by (auto simp: consoleWrites_checkEnv)
  from lines occurs once show ?thesis by blast
qed

theorem diagnostic_block_witness:
  "[ascii ''A'', ascii ''B''] \<noteq> [] \<and>
   0x0A \<notin> set (ascii ''A'') \<and> 0x0A \<notin> set (ascii ''B'') \<and>
   missingVars emptyObject [ascii ''A'', ascii ''B'']
     \<lparr>prefix = None, source = None, exitOnError = Some False\<rparr> = [ascii ''A'', ascii ''B''] \<and>
   splitLines (formatErrorMessage [ascii ''A'', ascii ''B'']) =
     [[],
      [0x2620, 0xFE0F, 0x20, 0x20] @ ascii ''ENVIRONMENT VARIABLES MISSING''
        @ [0x20, 0x2620, 0xFE0F],
      replicate 35 0x2500,
      [0x274C, 0x20] @ ascii ''A'',
      [0x274C, 0x20] @ ascii ''B'',
      replicate 35 0x2500,
      []] \<and>
   (\<exists>before after. formatErrorMessage [ascii ''A'', ascii ''B''] =
      before @ [0x0A, 0x274C, 0x20] @ ascii ''B'' @ [0x0A] @ after) \<and>
   consoleWrites (fst (checkEnv emptyObject [ascii ''A'', ascii ''B'']
     \<lparr>prefix = None, source = None, exitOnError = Some False\<rparr>)) =
     [formatErrorMessage [ascii ''A'', ascii ''B'']]"
proof -
  let ?names = "[ascii ''A'', ascii ''B'']"
  let ?opts = "\<lparr>prefix = None, source = None, exitOnError = Some False\<rparr>"
  have ne: "?names \<noteq> []" by simp
  have a: "0x0A \<notin> set (ascii ''A'')" and b: "0x0A \<notin> set (ascii ''B'')"
    by (simp_all add: ascii_def)
  have m: "missingVars emptyObject ?names ?opts = ?names"
    by (simp add: eval_defs)
  have mem: "ascii ''B'' \<in> set ?names" by simp
  have one: "\<forall>v \<in> set ?names. 0x0A \<notin> set v" using a b by simp
  note th = diagnostic_block [OF ne, of emptyObject ?names ?opts]
  from th one have "splitLines (formatErrorMessage ?names) =
      [[],
       [0x2620, 0xFE0F, 0x20, 0x20] @ ascii ''ENVIRONMENT VARIABLES MISSING''
         @ [0x20, 0x2620, 0xFE0F],
       replicate 35 0x2500]
      @ map (\<lambda>v. [0x274C, 0x20] @ v) ?names
      @ [replicate 35 0x2500, []]"
    by blast
  then have c1: "splitLines (formatErrorMessage ?names) =
      [[],
       [0x2620, 0xFE0F, 0x20, 0x20] @ ascii ''ENVIRONMENT VARIABLES MISSING''
         @ [0x20, 0x2620, 0xFE0F],
       replicate 35 0x2500,
       [0x274C, 0x20] @ ascii ''A'',
       [0x274C, 0x20] @ ascii ''B'',
       replicate 35 0x2500,
       []]"
    by (simp only: list.map append.simps)
  from th mem have c2: "\<exists>before after. formatErrorMessage ?names =
      before @ [0x0A, 0x274C, 0x20] @ ascii ''B'' @ [0x0A] @ after"
    by blast
  from th m have c3: "consoleWrites (fst (checkEnv emptyObject ?names ?opts)) =
      [formatErrorMessage ?names]"
    by blast
  from ne a b m c1 c2 c3 show ?thesis by blast
qed

text \<open>
  The one name \<^verbatim>\<open>"A\nB"\<close> gives two lines, and the second, \<^verbatim>\<open>B\<close>, has no marker.
\<close>

theorem diagnostic_block_counterexample:
  "splitLines (formatErrorMessage [[0x41, 0x0A, 0x42]]) =
     [[],
      [0x2620, 0xFE0F, 0x20, 0x20] @ ascii ''ENVIRONMENT VARIABLES MISSING''
        @ [0x20, 0x2620, 0xFE0F],
      replicate 35 0x2500,
      [0x274C, 0x20, 0x41],
      [0x42],
      replicate 35 0x2500,
      []]"
proof -
  have "formatErrorMessage [[0x41, 0x0A, 0x42]] =
      [] @ newline @ (blockOfLines [banner, separator, [0x274C, 0x20, 0x41], [0x42], separator]
        @ [])"
    by (simp add: formatErrorMessage_def blockOfLines_def markLine_units newline_def)
  moreover have "splitLines ([] @ newline
      @ (blockOfLines [banner, separator, [0x274C, 0x20, 0x41], [0x42], separator] @ [])) =
      [] # splitLines (blockOfLines [banner, separator, [0x274C, 0x20, 0x41], [0x42], separator]
        @ [])"
    by (rule splitLines_line) simp
  moreover have "splitLines (blockOfLines [banner, separator, [0x274C, 0x20, 0x41], [0x42],
      separator] @ []) = [banner, separator, [0x274C, 0x20, 0x41], [0x42], separator]
        @ splitLines []"
    by (rule splitLines_block) (auto simp: banner_one_line separator_one_line)
  ultimately show ?thesis
    by (simp add: banner_units separator_def)
qed

text \<open>
  C9. Filtering the source is not redundant. For the source
  \<^verbatim>\<open>JSON.parse('{"__proto__": ""}')\<close>, the prefix \<^verbatim>\<open>__\<close> and the required name
  \<^verbatim>\<open>__proto__\<close>, the assignment to the filtered copy stores nothing and the copy reads
  \<^verbatim>\<open>Object.prototype\<close> under that name: with the prefix nothing is missing, while the same
  name looked up in the unfiltered source is missing.
\<close>

theorem source_filter_proto_divergence:
  "checkEnv emptyObject [ascii ''__proto__'']
     \<lparr>prefix = Some (ascii ''__''),
      source = Some (plainObject [(ascii ''__proto__'', Some [])]),
      exitOnError = Some False\<rparr> = ([], Returned \<lparr>missing = [], success = True\<rparr>) \<and>
   filter (\<lambda>v. startsWith v (ascii ''__'')) [ascii ''__proto__''] = [ascii ''__proto__''] \<and>
   checkEnv emptyObject [ascii ''__proto__'']
     \<lparr>prefix = None,
      source = Some (plainObject [(ascii ''__proto__'', Some [])]),
      exitOnError = Some False\<rparr> =
     ([ConsoleWarn (formatErrorMessage [ascii ''__proto__''])],
      Returned \<lparr>missing = [ascii ''__proto__''], success = False\<rparr>) \<and>
   objRead (getEnvSource emptyObject (Some (plainObject [(ascii ''__proto__'', Some [])]))
              (Some (ascii ''__''))) (ascii ''__proto__'') = Obj \<and>
   objRead (plainObject [(ascii ''__proto__'', Some [])]) (ascii ''__proto__'') = Str []"
  by (simp add: eval_defs)

text \<open>
  C10. An empty-string prefix behaves as no prefix: the source is not filtered, the
  required names are not filtered, and \<open>checkEnv\<close> runs the same in both cases.
\<close>

theorem empty_prefix_is_no_prefix:
  "checkEnv penv requiredVars (options\<lparr>prefix := Some []\<rparr>) =
     checkEnv penv requiredVars (options\<lparr>prefix := None\<rparr>) \<and>
   getEnvSource penv src (Some []) = getEnvSource penv src None \<and>
   getEnvSource penv src (Some []) = baseSource penv src \<and>
   varsToCheck requiredVars (Some []) = requiredVars \<and>
   varsToCheck requiredVars None = requiredVars"
  by (simp add: checkEnv_def missingVars_def getEnvSource_def varsToCheck_def exitOnErrorOf_def)

end
